theory Spec2Isabelle
  imports Main "HOL-Library.Sublist"
begin

section \<open>Python text\<close>

text \<open>
  A Python \<open>str\<close> is modelled as a \<open>string\<close> whose characters are the code points
  below 256. The functions of this section are the \<open>str\<close> methods that
  \<open>get_papers_list.py\<close> calls.
\<close>

definition py_isspace :: "char \<Rightarrow> bool" where
  \<comment> \<open>\<open>str.isspace\<close> on one character: TAB..CR, FS..US, space, NEL, NBSP.\<close>
  "py_isspace c =
     (let n = (of_char c :: nat)
      in (9 \<le> n \<and> n \<le> 13) \<or> (28 \<le> n \<and> n \<le> 32) \<or> n = 133 \<or> n = 160)"

definition lower_char :: "char \<Rightarrow> char" where
  \<comment> \<open>\<open>str.lower\<close> on one character: A..Z and the Latin-1 capitals but the times sign.\<close>
  "lower_char c =
     (let n = (of_char c :: nat)
      in if (65 \<le> n \<and> n \<le> 90) \<or> (192 \<le> n \<and> n \<le> 222 \<and> n \<noteq> 215)
         then char_of (n + 32) else c)"

definition py_lower :: "string \<Rightarrow> string" where
  "py_lower s = map lower_char s"

definition strip_with :: "(char \<Rightarrow> bool) \<Rightarrow> string \<Rightarrow> string" where
  "strip_with P s = rev (dropWhile P (rev (dropWhile P s)))"

definition py_strip :: "string \<Rightarrow> string" where
  \<comment> \<open>\<open>s.strip()\<close>\<close>
  "py_strip s = strip_with py_isspace s"

definition py_strip_chars :: "string \<Rightarrow> string \<Rightarrow> string" where
  \<comment> \<open>\<open>s.strip(chars)\<close>\<close>
  "py_strip_chars chars s = strip_with (\<lambda>c. c \<in> set chars) s"

fun split_ws_acc :: "string \<Rightarrow> string \<Rightarrow> string list" where
  "split_ws_acc [] cur = (if cur = [] then [] else [cur])"
| "split_ws_acc (c # cs) cur =
     (if py_isspace c
      then (if cur = [] then split_ws_acc cs [] else cur # split_ws_acc cs [])
      else split_ws_acc cs (cur @ [c]))"

definition py_split_ws :: "string \<Rightarrow> string list" where
  \<comment> \<open>\<open>s.split()\<close>: the maximal runs of non-whitespace characters.\<close>
  "py_split_ws s = split_ws_acc s []"

fun split_sep_acc :: "char \<Rightarrow> string \<Rightarrow> string \<Rightarrow> string list" where
  "split_sep_acc sep [] cur = [cur]"
| "split_sep_acc sep (c # cs) cur =
     (if c = sep then cur # split_sep_acc sep cs [] else split_sep_acc sep cs (cur @ [c]))"

definition py_split_sep :: "char \<Rightarrow> string \<Rightarrow> string list" where
  \<comment> \<open>\<open>s.split(sep)\<close> for a one-character separator; the result is never empty.\<close>
  "py_split_sep sep s = split_sep_acc sep s []"

fun startswith :: "string \<Rightarrow> string \<Rightarrow> bool" where
  "startswith s [] = True"
| "startswith [] (k # ks) = False"
| "startswith (c # cs) (k # ks) = (c = k \<and> startswith cs ks)"

fun py_in_str :: "string \<Rightarrow> string \<Rightarrow> bool" where
  \<comment> \<open>\<open>k in s\<close> on two strings: \<open>k\<close> occurs in \<open>s\<close> as a contiguous substring.\<close>
  "py_in_str k [] = (k = [])"
| "py_in_str k (c # cs) = (startswith (c # cs) k \<or> py_in_str k cs)"

fun py_join :: "string \<Rightarrow> string list \<Rightarrow> string" where
  \<comment> \<open>\<open>sep.join(xs)\<close> on a list of strings.\<close>
  "py_join sep [] = []"
| "py_join sep [x] = x"
| "py_join sep (x # y # ys) = x @ sep @ py_join sep (y # ys)"

section \<open>Python values\<close>

text \<open>
  A raw record is a nested value of mappings, lists and scalars. A mapping is an
  association list read with \<open>map_of\<close> (the first binding of a key is the one a lookup
  sees); its keys are strings.
\<close>

datatype pyval =
    PNone
  | PInt int
  | PStr string
  | PList "pyval list"
  | PDict "(string \<times> pyval) list"

datatype py_error = AttributeError | TypeError | FetchFailure

fun py_get :: "pyval \<Rightarrow> string \<Rightarrow> pyval \<Rightarrow> py_error + pyval" where
  \<comment> \<open>\<open>x.get(k, default)\<close>: only a mapping has the method.\<close>
  "py_get (PDict d) k dflt = Inr (case map_of d k of Some v \<Rightarrow> v | None \<Rightarrow> dflt)"
| "py_get PNone k dflt = Inl AttributeError"
| "py_get (PInt i) k dflt = Inl AttributeError"
| "py_get (PStr s) k dflt = Inl AttributeError"
| "py_get (PList xs) k dflt = Inl AttributeError"

fun as_list :: "pyval \<Rightarrow> pyval list" where
  \<comment> \<open>\<open>if not isinstance(x, list): x = [x]\<close>\<close>
  "as_list (PList xs) = xs"
| "as_list PNone = [PNone]"
| "as_list (PInt i) = [PInt i]"
| "as_list (PStr s) = [PStr s]"
| "as_list (PDict d) = [PDict d]"

fun is_dict :: "pyval \<Rightarrow> bool" where
  \<comment> \<open>\<open>isinstance(x, dict)\<close>\<close>
  "is_dict (PDict d) = True"
| "is_dict PNone = False"
| "is_dict (PInt i) = False"
| "is_dict (PStr s) = False"
| "is_dict (PList xs) = False"

subsection \<open>Formatting a value in an f-string\<close>

fun show_nat :: "nat \<Rightarrow> string" where
  "show_nat n =
     (if n < 10 then [char_of (48 + n)] else show_nat (n div 10) @ [char_of (48 + n mod 10)])"

declare show_nat.simps [simp del]

definition show_int :: "int \<Rightarrow> string" where
  "show_int i = (if i < 0 then CHR ''-'' # show_nat (nat (- i)) else show_nat (nat i))"

definition hex_digit :: "nat \<Rightarrow> char" where
  "hex_digit n = (if n < 10 then char_of (48 + n) else char_of (87 + n))"

definition repr_char :: "char \<Rightarrow> char \<Rightarrow> string" where
  \<comment> \<open>One character inside \<open>repr\<close> of a string quoted with \<open>q\<close>.\<close>
  "repr_char q c =
     (let n = (of_char c :: nat)
      in if n = 92 then [c, c]
         else if c = q then [CHR 0x5C, c]
         else if n = 9 then [CHR 0x5C, CHR ''t'']
         else if n = 10 then [CHR 0x5C, CHR ''n'']
         else if n = 13 then [CHR 0x5C, CHR ''r'']
         else if n < 32 \<or> (127 \<le> n \<and> n \<le> 160) \<or> n = 173
           then [CHR 0x5C, CHR ''x'', hex_digit (n div 16), hex_digit (n mod 16)]
         else [c])"

definition repr_str :: "string \<Rightarrow> string" where
  \<comment> \<open>\<open>repr(s)\<close>: single quotes, unless the text has a single quote and no double one.\<close>
  "repr_str s =
     (let q = (if CHR 0x27 \<in> set s \<and> CHR 0x22 \<notin> set s then CHR 0x22 else CHR 0x27)
      in q # concat (map (repr_char q) s) @ [q])"

fun py_repr :: "pyval \<Rightarrow> string" where
  "py_repr PNone = ''None''"
| "py_repr (PInt i) = show_int i"
| "py_repr (PStr s) = repr_str s"
| "py_repr (PList xs) = ''['' @ py_join '', '' (map py_repr xs) @ '']''"
| "py_repr (PDict d) =
     ''{'' @ py_join '', '' (map (\<lambda>kv. repr_str (fst kv) @ '': '' @ py_repr (snd kv)) d) @ ''}''"

fun py_format :: "pyval \<Rightarrow> string" where
  \<comment> \<open>\<open>f"{x}"\<close>: a string is itself, any other value is printed as \<open>str(x)\<close>.\<close>
  "py_format (PStr s) = s"
| "py_format PNone = ''None''"
| "py_format (PInt i) = show_int i"
| "py_format (PList xs) = py_repr (PList xs)"
| "py_format (PDict d) = py_repr (PDict d)"

section \<open>The affiliation classifier\<close>

definition COMPANY_KEYWORDS :: "string list" where
  "COMPANY_KEYWORDS =
     [''inc'', ''ltd'', ''llc'', ''corp'', ''corporation'', ''pharma'', ''pharmaceuticals'',
      ''biotech'', ''therapeutics'', ''diagnostics'', ''biosciences'', ''gmbh'', ''ag'',
      ''bv'', ''s.a.'', ''s.l.'', ''s.r.l.'']"

definition ACADEMIC_DOMAINS :: "string list" where
  "ACADEMIC_DOMAINS = [''.edu'', ''.ac.'', ''.org'']"

definition truthy :: "string option \<Rightarrow> bool" where
  \<comment> \<open>The truth value of an \<open>Optional[str]\<close>: \<open>None\<close> and the empty string are false.\<close>
  "truthy x = (case x of None \<Rightarrow> False | Some s \<Rightarrow> s \<noteq> [])"

definition company_name_of :: "string \<Rightarrow> string" where
  \<comment> \<open>\<open>parts = affiliation.split(','); company_name = parts[0].strip()\<close>; \<open>parts\<close> is
      never empty (lemma \<open>py_split_sep_nonempty\<close>), so index 0 is its head.\<close>
  "company_name_of affiliation = py_strip (hd (py_split_sep (CHR '','') affiliation))"

fun keyword_loop :: "string list \<Rightarrow> string \<Rightarrow> string \<Rightarrow> (bool \<times> string option) option" where
  \<comment> \<open>Heuristic 1, the \<open>for keyword in COMPANY_KEYWORDS\<close> loop: \<open>Some r\<close> when the loop
      returns \<open>r\<close>, \<open>None\<close> when it runs to its end.\<close>
  "keyword_loop [] affiliation affiliation_lower = None"
| "keyword_loop (keyword # rest) affiliation affiliation_lower =
     (if py_in_str keyword affiliation_lower
      then Some (True, Some (company_name_of affiliation))
      else keyword_loop rest affiliation affiliation_lower)"

definition is_non_academic :: "string \<Rightarrow> string option \<Rightarrow> bool \<times> string option" where
  "is_non_academic affiliation email =
     (let affiliation_lower = (if affiliation \<noteq> [] then py_lower affiliation else []);
          email_lower = (case email of None \<Rightarrow> [] | Some e \<Rightarrow> if e \<noteq> [] then py_lower e else [])
      in case keyword_loop COMPANY_KEYWORDS affiliation affiliation_lower of
           Some r \<Rightarrow> r
         | None \<Rightarrow>
             if truthy email
             then (let is_academic_domain =
                         list_ex (\<lambda>domain. py_in_str domain email_lower) ACADEMIC_DOMAINS
                   in if \<not> is_academic_domain
                      then (if list_ex (\<lambda>keyword. py_in_str keyword affiliation_lower)
                                 COMPANY_KEYWORDS
                            then (True, Some (company_name_of affiliation))
                            else (False, None))
                      else (False, None))
             else (False, None))"

definition classify_reference :: "string \<Rightarrow> string option \<Rightarrow> bool \<times> string option" where
  \<comment> \<open>The one-test classifier of the specification: the email is ignored.\<close>
  "classify_reference affiliation email =
     (if list_ex (\<lambda>keyword. py_in_str keyword (py_lower affiliation)) COMPANY_KEYWORDS
      then (True, Some (py_strip (takeWhile (\<lambda>c. c \<noteq> CHR '','') affiliation)))
      else (False, None))"

section \<open>Normalising one author\<close>

fun py_contains :: "string \<Rightarrow> pyval \<Rightarrow> py_error + bool" where
  \<comment> \<open>\<open>k in x\<close> for a string \<open>k\<close>: a substring test on a string, membership in a list,
      a key test on a mapping, and a \<open>TypeError\<close> on a value that is not iterable.\<close>
  "py_contains k (PStr s) = Inr (py_in_str k s)"
| "py_contains k (PList xs) = Inr (PStr k \<in> set xs)"
| "py_contains k (PDict d) = Inr (k \<in> set (map fst d))"
| "py_contains k PNone = Inl TypeError"
| "py_contains k (PInt i) = Inl TypeError"

fun py_split_val :: "pyval \<Rightarrow> py_error + string list" where
  \<comment> \<open>\<open>x.split()\<close>: only a string has the method.\<close>
  "py_split_val (PStr s) = Inr (py_split_ws s)"
| "py_split_val PNone = Inl AttributeError"
| "py_split_val (PInt i) = Inl AttributeError"
| "py_split_val (PList xs) = Inl AttributeError"
| "py_split_val (PDict d) = Inl AttributeError"

fun strs_of :: "pyval list \<Rightarrow> string list option" where
  "strs_of [] = Some []"
| "strs_of (PStr s # xs) = map_option ((#) s) (strs_of xs)"
| "strs_of (PNone # xs) = None"
| "strs_of (PInt i # xs) = None"
| "strs_of (PList ys # xs) = None"
| "strs_of (PDict d # xs) = None"

definition py_join_vals :: "string \<Rightarrow> pyval list \<Rightarrow> py_error + string" where
  \<comment> \<open>\<open>sep.join(xs)\<close>: a \<open>TypeError\<close> when an item is not a string.\<close>
  "py_join_vals sep xs =
     (case strs_of xs of None \<Rightarrow> Inl TypeError | Some ss \<Rightarrow> Inr (py_join sep ss))"

definition email_of_words :: "string list \<Rightarrow> string option \<Rightarrow> string option" where
  \<comment> \<open>\<open>for word in words: if '@' in word: author_email = word.strip('().,;'); break\<close>\<close>
  "email_of_words words author_email =
     (case find (\<lambda>word. py_in_str ''@'' word) words of
        None \<Rightarrow> author_email
      | Some word \<Rightarrow> Some (py_strip_chars ''().,;'' word))"

fun affil_loop ::
  "pyval list \<Rightarrow> pyval list \<times> string option \<Rightarrow> py_error + (pyval list \<times> string option)" where
  \<comment> \<open>\<open>for affil in affiliation_info\<close>, on the pair
      \<open>(affiliations_text, author_email)\<close>.\<close>
  "affil_loop [] st = Inr st"
| "affil_loop (affil # rest) (affiliations_text, author_email) =
     (if is_dict affil
      then (case py_get affil ''Affiliation'' (PStr []) of
              Inl e \<Rightarrow> Inl e
            | Inr affil_text \<Rightarrow>
                (case py_contains ''@'' affil_text of
                   Inl e \<Rightarrow> Inl e
                 | Inr has_at \<Rightarrow>
                     if has_at
                     then (case py_split_val affil_text of
                             Inl e \<Rightarrow> Inl e
                           | Inr words \<Rightarrow>
                               affil_loop rest
                                 (affiliations_text @ [affil_text],
                                  email_of_words words author_email))
                     else affil_loop rest (affiliations_text @ [affil_text], author_email)))
      else affil_loop rest (affiliations_text, author_email))"

definition author_fields :: "pyval \<Rightarrow> py_error + (string \<times> string \<times> string option)" where
  \<comment> \<open>The first half of the body of \<open>for author in authors\<close>, for an author that is a
      mapping: \<open>(author_name, author_affiliation, author_email)\<close>.\<close>
  "author_fields author =
     (case py_get author ''LastName'' (PStr []) of
        Inl e \<Rightarrow> Inl e
      | Inr last_name \<Rightarrow>
     (case py_get author ''ForeName'' (PStr []) of
        Inl e \<Rightarrow> Inl e
      | Inr fore_name \<Rightarrow>
     (let author_name = py_strip (py_format fore_name @ '' '' @ py_format last_name)
      in case py_get author ''AffiliationInfo'' (PList []) of
           Inl e \<Rightarrow> Inl e
         | Inr affiliation_info_raw \<Rightarrow>
        (let affiliation_info = as_list affiliation_info_raw
         in if affiliation_info \<noteq> []
            then (case affil_loop affiliation_info ([], None) of
                    Inl e \<Rightarrow> Inl e
                  | Inr (affiliations_text, author_email) \<Rightarrow>
                      (case py_join_vals ''; '' affiliations_text of
                         Inl e \<Rightarrow> Inl e
                       | Inr author_affiliation \<Rightarrow>
                           Inr (author_name, author_affiliation, author_email)))
            else Inr (author_name, [], None)))))"

section \<open>Processing the papers\<close>

text \<open>
  Of the log, the model keeps the warnings of the exception handler; the two
  \<open>logger.info\<close> lines of \<open>process_papers\<close> cannot raise and are left out.
\<close>

record author_acc =
  non_academic_authors_list :: "string list"
  company_affiliations_list :: "string list"
  corresponding_author_email :: "string option"
  has_non_academic_author :: bool

definition init_acc :: author_acc where
  "init_acc =
     \<lparr>non_academic_authors_list = [], company_affiliations_list = [],
      corresponding_author_email = None, has_non_academic_author = False\<rparr>"

definition add_company :: "string option \<Rightarrow> string list \<Rightarrow> string list" where
  \<comment> \<open>\<open>if company_name and company_name not in xs: xs.append(company_name)\<close>\<close>
  "add_company company_name xs =
     (case company_name of
        None \<Rightarrow> xs
      | Some c \<Rightarrow> if c \<noteq> [] \<and> c \<notin> set xs then xs @ [c] else xs)"

definition author_update :: "string \<times> string \<times> string option \<Rightarrow> author_acc \<Rightarrow> author_acc" where
  \<comment> \<open>The second half of the body of \<open>for author in authors\<close>: classify, then keep the
      first email.\<close>
  "author_update f st =
     (case f of (author_name, author_affiliation, author_email) \<Rightarrow>
      (case is_non_academic author_affiliation author_email of (is_na, company_name) \<Rightarrow>
       (let st1 = (if is_na
                   then st\<lparr>has_non_academic_author := True,
                           non_academic_authors_list :=
                             non_academic_authors_list st @ [author_name],
                           company_affiliations_list :=
                             add_company company_name (company_affiliations_list st)\<rparr>
                   else st)
        in if truthy author_email \<and> \<not> truthy (corresponding_author_email st1)
           then st1\<lparr>corresponding_author_email := author_email\<rparr>
           else st1)))"

fun author_loop :: "pyval list \<Rightarrow> author_acc \<Rightarrow> py_error + author_acc" where
  "author_loop [] st = Inr st"
| "author_loop (author # rest) st =
     (if \<not> is_dict author then author_loop rest st
      else (case author_fields author of
              Inl e \<Rightarrow> Inl e
            | Inr f \<Rightarrow> author_loop rest (author_update f st)))"

record summary =
  PubMedID :: pyval
  Title :: pyval
  Publication_Date :: string
  Non_academic_Authors :: string
  Company_Affiliations :: string
  Corresponding_Author_Email :: string

definition format_date :: "pyval \<Rightarrow> pyval \<Rightarrow> pyval \<Rightarrow> string" where
  \<comment> \<open>\<open>f"{pub_year}-{pub_month}-{pub_day}".strip('-')\<close>\<close>
  "format_date pub_year pub_month pub_day =
     py_strip_chars ''-''
       (py_format pub_year @ ''-'' @ py_format pub_month @ ''-'' @ py_format pub_day)"

definition pub_date :: "pyval \<Rightarrow> py_error + string" where
  "pub_date article =
     (case py_get article ''Journal'' (PDict []) of
        Inl e \<Rightarrow> Inl e
      | Inr journal \<Rightarrow>
     (case py_get journal ''JournalIssue'' (PDict []) of
        Inl e \<Rightarrow> Inl e
      | Inr journal_issue \<Rightarrow>
     (case py_get journal_issue ''PubDate'' (PDict []) of
        Inl e \<Rightarrow> Inl e
      | Inr pub_date_info \<Rightarrow>
     (case py_get pub_date_info ''Year'' (PStr []) of
        Inl e \<Rightarrow> Inl e
      | Inr pub_year \<Rightarrow>
     (case py_get pub_date_info ''Month'' (PStr []) of
        Inl e \<Rightarrow> Inl e
      | Inr pub_month \<Rightarrow>
     (case py_get pub_date_info ''Day'' (PStr []) of
        Inl e \<Rightarrow> Inl e
      | Inr pub_day \<Rightarrow> Inr (format_date pub_year pub_month pub_day)))))))"

definition paper_header :: "pyval \<Rightarrow> py_error + (pyval \<times> pyval \<times> string \<times> pyval list)" where
  \<comment> \<open>The \<open>try\<close> body up to the author loop:
      \<open>(pmid, title, publication_date, authors)\<close>.\<close>
  "paper_header paper =
     (case py_get paper ''MedlineCitation'' (PDict []) of
        Inl e \<Rightarrow> Inl e
      | Inr medline_citation \<Rightarrow>
     (case py_get medline_citation ''Article'' (PDict []) of
        Inl e \<Rightarrow> Inl e
      | Inr article \<Rightarrow>
     (case py_get paper ''PubmedData'' (PDict []) of
        Inl e \<Rightarrow> Inl e
      | Inr pubmed_data \<Rightarrow>
     (case py_get pubmed_data ''ArticleIdList'' (PDict []) of
        Inl e \<Rightarrow> Inl e
      | Inr article_id_list \<Rightarrow>
     (case py_get medline_citation ''PMID'' (PStr []) of
        Inl e \<Rightarrow> Inl e
      | Inr pmid \<Rightarrow>
     (case py_get article ''ArticleTitle'' (PStr []) of
        Inl e \<Rightarrow> Inl e
      | Inr title \<Rightarrow>
     (case pub_date article of
        Inl e \<Rightarrow> Inl e
      | Inr publication_date \<Rightarrow>
     (case py_get article ''AuthorList'' (PList []) of
        Inl e \<Rightarrow> Inl e
      | Inr authors \<Rightarrow> Inr (pmid, title, publication_date, as_list authors)))))))))"

definition make_summary :: "pyval \<Rightarrow> pyval \<Rightarrow> string \<Rightarrow> author_acc \<Rightarrow> summary" where
  "make_summary pmid title publication_date st =
     \<lparr>PubMedID = pmid, Title = title, Publication_Date = publication_date,
      Non_academic_Authors = py_join ''; '' (non_academic_authors_list st),
      Company_Affiliations = py_join ''; '' (company_affiliations_list st),
      Corresponding_Author_Email =
        (case corresponding_author_email st of
           None \<Rightarrow> ''N/A''
         | Some e \<Rightarrow> if e \<noteq> [] then e else ''N/A'')\<rparr>"

definition process_paper :: "pyval \<Rightarrow> py_error + summary option" where
  \<comment> \<open>The \<open>try\<close> body for one paper: the exception it raises, or the row it appends
      to \<open>results\<close> (\<open>None\<close> when it appends nothing).\<close>
  "process_paper paper =
     (case paper_header paper of
        Inl e \<Rightarrow> Inl e
      | Inr (pmid, title, publication_date, authors) \<Rightarrow>
          (case author_loop authors init_acc of
             Inl e \<Rightarrow> Inl e
           | Inr st \<Rightarrow>
               Inr (if has_non_academic_author st
                    then Some (make_summary pmid title publication_date st)
                    else None)))"

datatype log_record = Warning pyval py_error
  \<comment> \<open>\<open>logger.warning(f"Could not process paper PMID {pmid_for_error}: {e}")\<close>\<close>

definition pmid_for_error :: "pyval \<Rightarrow> py_error + pyval" where
  \<comment> \<open>\<open>paper.get('MedlineCitation', {}).get('PMID', 'UNKNOWN')\<close>, in the handler.\<close>
  "pmid_for_error paper =
     (case py_get paper ''MedlineCitation'' (PDict []) of
        Inl e \<Rightarrow> Inl e
      | Inr medline_citation \<Rightarrow> py_get medline_citation ''PMID'' (PStr ''UNKNOWN''))"

fun papers_loop ::
  "pyval list \<Rightarrow> summary list \<times> log_record list \<Rightarrow>
   py_error + (summary list \<times> log_record list)" where
  \<comment> \<open>\<open>for paper in papers_data\<close>, on the rows collected and the warnings logged so far;
      \<open>Inl\<close> is an exception that leaves \<open>process_papers\<close>.\<close>
  "papers_loop [] st = Inr st"
| "papers_loop (paper # rest) (results, warnings) =
     (case process_paper paper of
        Inr None \<Rightarrow> papers_loop rest (results, warnings)
      | Inr (Some row) \<Rightarrow> papers_loop rest (results @ [row], warnings)
      | Inl e \<Rightarrow>
          (case pmid_for_error paper of
             Inl e' \<Rightarrow> Inl e'
           | Inr pmid \<Rightarrow> papers_loop rest (results, warnings @ [Warning pmid e])))"

definition process_papers ::
  "pyval list \<Rightarrow> py_error + (summary list \<times> log_record list)" where
  "process_papers papers_data = papers_loop papers_data ([], [])"

section \<open>Fetching in batches\<close>

text \<open>
  \<open>Entrez.efetch\<close>, \<open>Entrez.read\<close> and \<open>handle.close\<close> belong to the Biopython library.
  Their joint outcome is the parameter \<open>efetch\<close>: given how many calls came before and
  the identifiers of the batch, either the exception raised or the value read.
\<close>

datatype fetch_record = Fetched nat | FetchError nat py_error

record fetch_state =
  papers_data :: "pyval list"
  fetch_log :: "fetch_record list"
  fetch_calls :: "string list list"

definition batch_size :: nat where
  "batch_size = 100"

definition fetch_batch ::
  "(nat \<Rightarrow> string list \<Rightarrow> py_error + pyval) \<Rightarrow> string list \<Rightarrow> nat \<Rightarrow> fetch_state \<Rightarrow> fetch_state" where
  \<comment> \<open>The body of \<open>for i in range(0, len(pmids), batch_size)\<close>.\<close>
  "fetch_batch efetch pmids i st =
     (let batch_pmids = take batch_size (drop i pmids);
          st1 = st\<lparr>fetch_calls := fetch_calls st @ [batch_pmids]\<rparr>
      in case efetch (i div batch_size) batch_pmids of
           Inl e \<Rightarrow> st1\<lparr>fetch_log := fetch_log st1 @ [FetchError (i div batch_size + 1) e]\<rparr>
         | Inr records \<Rightarrow>
             (case py_get records ''PubmedArticle'' (PList []) of
                Inl e \<Rightarrow>
                  st1\<lparr>fetch_log := fetch_log st1 @ [FetchError (i div batch_size + 1) e]\<rparr>
              | Inr articles \<Rightarrow>
                  st1\<lparr>papers_data := papers_data st1 @ as_list articles,
                      fetch_log := fetch_log st1 @ [Fetched (i div batch_size + 1)]\<rparr>))"

function fetch_loop ::
  "(nat \<Rightarrow> string list \<Rightarrow> py_error + pyval) \<Rightarrow> string list \<Rightarrow> nat \<Rightarrow> fetch_state \<Rightarrow> fetch_state" where
  "fetch_loop efetch pmids i st =
     (if i < length pmids
      then fetch_loop efetch pmids (i + batch_size) (fetch_batch efetch pmids i st)
      else st)"
  by pat_completeness auto
termination
  by (relation "measure (\<lambda>(efetch, pmids, i, st). length pmids - i)")
     (auto simp: batch_size_def)

declare fetch_loop.simps [simp del]

definition fetch_run ::
  "(nat \<Rightarrow> string list \<Rightarrow> py_error + pyval) \<Rightarrow> string list \<Rightarrow> fetch_state" where
  "fetch_run efetch pmids =
     (let st0 = \<lparr>papers_data = [], fetch_log = [], fetch_calls = []\<rparr>
      in if pmids = [] then st0 else fetch_loop efetch pmids 0 st0)"

definition fetch_paper_details ::
  "(nat \<Rightarrow> string list \<Rightarrow> py_error + pyval) \<Rightarrow> string list \<Rightarrow> pyval list" where
  "fetch_paper_details efetch pmids = papers_data (fetch_run efetch pmids)"

section \<open>Notions used in the statements\<close>

definition paper_authors :: "pyval \<Rightarrow> pyval list" where
  \<comment> \<open>The list the author loop of a paper runs over (empty when the header raises).\<close>
  "paper_authors paper =
     (case paper_header paper of
        Inl e \<Rightarrow> []
      | Inr (pmid, title, publication_date, authors) \<Rightarrow> authors)"

definition raises :: "pyval \<Rightarrow> bool" where
  \<comment> \<open>The \<open>try\<close> body of the paper raises an exception.\<close>
  "raises paper = (case process_paper paper of Inl e \<Rightarrow> True | Inr r \<Rightarrow> False)"

definition emitted :: "pyval \<Rightarrow> summary option" where
  \<comment> \<open>The row the paper contributes to \<open>results\<close>, if any.\<close>
  "emitted paper = (case process_paper paper of Inl e \<Rightarrow> None | Inr r \<Rightarrow> r)"

definition author_is_non_academic :: "pyval \<Rightarrow> bool" where
  \<comment> \<open>The entry is a mapping whose affiliation and email \<open>is_non_academic\<close> flags.\<close>
  "author_is_non_academic author =
     (is_dict author \<and>
      (case author_fields author of
         Inl e \<Rightarrow> False
       | Inr (author_name, author_affiliation, author_email) \<Rightarrow>
           fst (is_non_academic author_affiliation author_email)))"

definition has_non_academic :: "pyval \<Rightarrow> bool" where
  "has_non_academic paper = list_ex author_is_non_academic (paper_authors paper)"

definition author_email_of :: "pyval \<Rightarrow> string option" where
  \<comment> \<open>The email extracted for one entry of the author list, if any.\<close>
  "author_email_of author =
     (if is_dict author
      then (case author_fields author of
              Inl e \<Rightarrow> None
            | Inr (author_name, author_affiliation, author_email) \<Rightarrow> author_email)
      else None)"

definition author_emails :: "pyval list \<Rightarrow> string list" where
  \<comment> \<open>The extracted emails of the authors, in author-list order.\<close>
  "author_emails authors = List.map_filter author_email_of authors"

definition author_company :: "pyval \<Rightarrow> string option" where
  \<comment> \<open>The organization guess of a non-academic author; an empty name is no guess.\<close>
  "author_company author =
     (if is_dict author
      then (case author_fields author of
              Inl e \<Rightarrow> None
            | Inr (author_name, author_affiliation, author_email) \<Rightarrow>
                (case is_non_academic author_affiliation author_email of
                   (is_na, company_name) \<Rightarrow>
                     if is_na \<and> truthy company_name then company_name else None))
      else None)"

definition company_guesses :: "pyval list \<Rightarrow> string list" where
  \<comment> \<open>The organization guesses of the non-academic authors, in author-list order.\<close>
  "company_guesses authors = List.map_filter author_company authors"

definition first_seen :: "'a list \<Rightarrow> 'a list" where
  \<comment> \<open>The list without its repetitions: each element stays at its first occurrence.\<close>
  "first_seen xs = rev (remdups (rev xs))"

definition n_chunks :: "nat \<Rightarrow> nat" where
  \<comment> \<open>\<open>ceil(n / 100)\<close>\<close>
  "n_chunks n = (n + 99) div 100"

definition chunk_at :: "string list \<Rightarrow> nat \<Rightarrow> string list" where
  \<comment> \<open>The \<open>k\<close>-th chunk of 100 identifiers, counting from 0.\<close>
  "chunk_at pmids k = take 100 (drop (100 * k) pmids)"

definition articles_of :: "py_error + pyval \<Rightarrow> pyval list" where
  \<comment> \<open>The records one chunk contributes: none when the call or the reading of its
      answer fails.\<close>
  "articles_of outcome =
     (case outcome of
        Inl e \<Rightarrow> []
      | Inr records \<Rightarrow>
          (case py_get records ''PubmedArticle'' (PList []) of
             Inl e \<Rightarrow> []
           | Inr articles \<Rightarrow> as_list articles))"




fun entries_acc :: "string \<Rightarrow> string \<Rightarrow> string list" where
  "entries_acc [] cur = [cur]"
| "entries_acc [c] cur = [cur @ [c]]"
| "entries_acc (c # d # cs) cur =
     (if c = CHR '';'' \<and> d = CHR '' '' then cur # entries_acc cs []
      else entries_acc (d # cs) (cur @ [c]))"

definition field_entries :: "string \<Rightarrow> string list" where
  \<comment> \<open>The entries of a multi-value field: \<open>field.split("; ")\<close>.\<close>
  "field_entries field = entries_acc field []"

definition insert_new :: "string list \<Rightarrow> string \<Rightarrow> string list" where
  \<comment> \<open>Appending a name that the list does not hold yet.\<close>
  "insert_new acc c = (if c \<in> set acc then acc else acc @ [c])"

section \<open>Example records\<close>

definition mk_author :: "string \<Rightarrow> string \<Rightarrow> string list \<Rightarrow> pyval" where
  "mk_author fore_name last_name affiliations =
     PDict [(''ForeName'', PStr fore_name), (''LastName'', PStr last_name),
            (''AffiliationInfo'',
             PList (map (\<lambda>a. PDict [(''Affiliation'', PStr a)]) affiliations))]"

definition mk_paper :: "string \<Rightarrow> pyval list \<Rightarrow> pyval" where
  "mk_paper pmid authors =
     PDict [(''MedlineCitation'',
             PDict [(''PMID'', PStr pmid),
                    (''Article'',
                     PDict [(''ArticleTitle'', PStr ''A study''),
                            (''Journal'',
                             PDict [(''JournalIssue'',
                                     PDict [(''PubDate'',
                                             PDict [(''Year'', PStr ''2021''),
                                                    (''Month'', PStr ''Mar'')])])]),
                            (''AuthorList'', PList authors)])])]"

definition stanford_novartis :: pyval where
  "stanford_novartis =
     mk_paper ''101''
       [mk_author ''Jane'' ''Doe'' [''Dept. of Biology, Stanford University. j.doe@stanford.edu''],
        mk_author ''Max'' ''Muster'' [''Novartis AG, Basel (max@novartis.com).'', ''Novartis AG, Basel'']]"

definition stanford_novartis_row :: summary where
  "stanford_novartis_row =
     \<lparr>PubMedID = PStr ''101'', Title = PStr ''A study'', Publication_Date = ''2021-Mar'',
      Non_academic_Authors = ''Max Muster'', Company_Affiliations = ''Novartis AG'',
      Corresponding_Author_Email = ''j.doe@stanford.edu''\<rparr>"

definition stanford_only :: pyval where
  "stanford_only =
     mk_paper ''100''
       [mk_author ''Jane'' ''Doe'' [''Dept. of Biology, Stanford University. j.doe@stanford.edu'']]"

definition two_companies :: pyval where
  "two_companies =
     mk_paper ''102''
       [mk_author ''Max'' ''Muster'' [''Novartis AG, Basel''],
        mk_author ''Eva'' ''Klein'' [''Roche Diagnostics GmbH, Mannheim''],
        mk_author ''Tom'' ''Lang'' [''Novartis AG, Basel, Switzerland'']]"

definition two_companies_row :: summary where
  "two_companies_row =
     \<lparr>PubMedID = PStr ''102'', Title = PStr ''A study'', Publication_Date = ''2021-Mar'',
      Non_academic_Authors = ''Max Muster; Eva Klein; Tom Lang'',
      Company_Affiliations = ''Novartis AG; Roche Diagnostics GmbH'',
      Corresponding_Author_Email = ''N/A''\<rparr>"



definition failing_second :: "nat \<Rightarrow> string list \<Rightarrow> py_error + pyval" where
  "failing_second k batch =
     (if k = 1 then Inl FetchFailure
      else Inr (PDict [(''PubmedArticle'', PList (map PStr batch))]))"

section \<open>Text and lookup lemmas\<close>

lemma split_sep_acc_nonempty: "split_sep_acc sep s cur \<noteq> []"
  by (induction s arbitrary: cur) auto

lemma py_split_sep_nonempty: "py_split_sep sep s \<noteq> []"
  by (simp add: py_split_sep_def split_sep_acc_nonempty)

lemma hd_split_sep_acc: "hd (split_sep_acc sep s cur) = cur @ takeWhile (\<lambda>c. c \<noteq> sep) s"
  by (induction s arbitrary: cur) auto

lemma hd_py_split_sep: "hd (py_split_sep sep s) = takeWhile (\<lambda>c. c \<noteq> sep) s"
  by (simp add: py_split_sep_def hd_split_sep_acc)

lemma startswith_prefix: "startswith s k \<longleftrightarrow> prefix k s"
  by (induction s k rule: startswith.induct) auto

lemma py_in_str_sublist: "py_in_str k s \<longleftrightarrow> sublist k s"
  by (induction s) (auto simp: startswith_prefix sublist_Cons_right)

lemma py_in_str_char: "py_in_str [c] s \<longleftrightarrow> c \<in> set s"
  by (induction s) (auto simp: startswith_prefix)

section \<open>The classifier against its one-test reference\<close>

lemma keyword_loop_None:
  "keyword_loop ks a al = None \<longleftrightarrow> \<not> list_ex (\<lambda>k. py_in_str k al) ks"
  by (induction ks) auto

lemma keyword_loop_Some:
  "keyword_loop ks a al = Some r \<Longrightarrow> r = (True, Some (company_name_of a))"
  by (induction ks) (auto split: if_splits)

lemma affiliation_lower: "(if a \<noteq> [] then py_lower a else []) = py_lower a"
  by (simp add: py_lower_def)

text \<open>
  Claim C2. For every affiliation string and optional email, \<open>is_non_academic\<close> returns
  what the one-test reference classifier returns, which never reads the email: the
  verdict is non-academic exactly when the lower-cased affiliation contains a company
  keyword as a substring, and then the guess is the original-case text before the first
  comma (the whole text when there is none), stripped of surrounding whitespace;
  otherwise the verdict is academic with no guess.
\<close>

theorem is_non_academic_refines_reference:
  "is_non_academic affiliation email = classify_reference affiliation email"
proof (cases "keyword_loop COMPANY_KEYWORDS affiliation (py_lower affiliation)")
  case None
  then have "\<not> list_ex (\<lambda>k. py_in_str k (py_lower affiliation)) COMPANY_KEYWORDS"
    by (simp add: keyword_loop_None)
  with None show ?thesis
    by (simp add: is_non_academic_def classify_reference_def affiliation_lower)
next
  case (Some r)
  then have r: "r = (True, Some (company_name_of affiliation))"
    by (rule keyword_loop_Some)
  from Some have "list_ex (\<lambda>k. py_in_str k (py_lower affiliation)) COMPANY_KEYWORDS"
    using keyword_loop_None [of COMPANY_KEYWORDS affiliation "py_lower affiliation"] by simp
  with Some r show ?thesis
    by (simp add: is_non_academic_def classify_reference_def affiliation_lower
        company_name_of_def hd_py_split_sep)
qed

theorem is_non_academic_refines_reference_witness:
  "is_non_academic ''Genentech Inc, South San Francisco, CA'' (Some ''j.doe@stanford.edu'')
     = (True, Some ''Genentech Inc'')"
proof -
  have "classify_reference ''Genentech Inc, South San Francisco, CA''
          (Some ''j.doe@stanford.edu'')
        = (True, Some ''Genentech Inc'')"
    by code_simp
  then show ?thesis
    by (simp only: is_non_academic_refines_reference)
qed

section \<open>The loops of \<open>process_papers\<close>\<close>

lemma papers_loop_rows:
  "papers_loop ps (rs, ws) = Inr (rs', ws') \<Longrightarrow> rs' = rs @ List.map_filter emitted ps"
proof (induction ps arbitrary: rs ws)
  case Nil
  then show ?case by simp
next
  case (Cons p ps)
  show ?case
  proof (cases "process_paper p")
    case (Inl e)
    with Cons.prems obtain pm where "papers_loop ps (rs, ws @ [Warning pm e]) = Inr (rs', ws')"
      by (auto split: sum.splits)
    from Cons.IH [OF this] Inl show ?thesis
      by (simp add: emitted_def)
  next
    case (Inr r)
    show ?thesis
    proof (cases r)
      case None
      with Inr Cons.prems have "papers_loop ps (rs, ws) = Inr (rs', ws')" by simp
      from Cons.IH [OF this] Inr None show ?thesis
        by (simp add: emitted_def)
    next
      case (Some row)
      with Inr Cons.prems have "papers_loop ps (rs @ [row], ws) = Inr (rs', ws')" by simp
      from Cons.IH [OF this] Inr Some show ?thesis
        by (simp add: emitted_def)
    qed
  qed
qed

lemma process_papers_rows:
  "process_papers ps = Inr (rows, ws) \<Longrightarrow> rows = List.map_filter emitted ps"
  using papers_loop_rows [of ps "[]" "[]" rows ws] by (simp add: process_papers_def)

lemma author_update_has:
  "has_non_academic_author (author_update (n, a, e) st)
     = (has_non_academic_author st \<or> fst (is_non_academic a e))"
  by (cases "is_non_academic a e") (simp add: author_update_def Let_def)

lemma author_update_corr:
  "corresponding_author_email (author_update (n, a, e) st)
     = (if truthy e \<and> \<not> truthy (corresponding_author_email st) then e
        else corresponding_author_email st)"
  by (cases "is_non_academic a e") (auto simp: author_update_def Let_def)

lemma author_update_company:
  "company_affiliations_list (author_update (n, a, e) st)
     = (if fst (is_non_academic a e)
        then add_company (snd (is_non_academic a e)) (company_affiliations_list st)
        else company_affiliations_list st)"
  by (cases "is_non_academic a e") (simp add: author_update_def Let_def)

lemma author_loop_has:
  "author_loop authors st = Inr st' \<Longrightarrow>
   has_non_academic_author st'
     = (has_non_academic_author st \<or> list_ex author_is_non_academic authors)"
proof (induction authors arbitrary: st)
  case Nil
  then show ?case by simp
next
  case (Cons a authors)
  show ?case
  proof (cases "is_dict a")
    case False
    with Cons.prems have "author_loop authors st = Inr st'" by simp
    from Cons.IH [OF this] False show ?thesis
      by (simp add: author_is_non_academic_def)
  next
    case True
    with Cons.prems obtain f where f: "author_fields a = Inr f"
      and rest: "author_loop authors (author_update f st) = Inr st'"
      by (auto split: sum.splits)
    obtain n af em where [simp]: "f = (n, af, em)" by (cases f)
    from Cons.IH [OF rest] True f show ?thesis
      by (auto simp: author_is_non_academic_def author_update_has)
  qed
qed

lemma process_paper_emits:
  "process_paper p = Inr r \<Longrightarrow> (r \<noteq> None) = has_non_academic p"
  by (auto simp: process_paper_def has_non_academic_def paper_authors_def init_acc_def
      split: sum.splits prod.splits if_splits dest!: author_loop_has)

lemma emitted_iff:
  "(\<exists>row. process_paper p = Inr (Some row)) \<longleftrightarrow> (\<not> raises p \<and> has_non_academic p)"
  by (cases "process_paper p") (auto simp: raises_def dest: process_paper_emits)


lemma dropWhile_keeps: "x \<in> set xs \<Longrightarrow> \<not> P x \<Longrightarrow> x \<in> set (dropWhile P xs)"
  by (induction xs) auto

lemma strip_with_keeps: "x \<in> set s \<Longrightarrow> \<not> P x \<Longrightarrow> x \<in> set (strip_with P s)"
  by (simp add: strip_with_def dropWhile_keeps)

lemma email_of_words_at:
  assumes "email_of_words ws em = Some e"
  shows "em = Some e \<or> CHR ''@'' \<in> set e"
proof (cases "find (\<lambda>word. py_in_str ''@'' word) ws")
  case None
  with assms show ?thesis by (simp add: email_of_words_def)
next
  case (Some w)
  then have "CHR ''@'' \<in> set w"
    by (auto simp: find_Some_iff py_in_str_char)
  then have "CHR ''@'' \<in> set (py_strip_chars ''().,;'' w)"
    by (simp add: py_strip_chars_def strip_with_keeps)
  with Some assms show ?thesis by (auto simp: email_of_words_def)
qed

lemma affil_loop_email_at:
  "affil_loop xs (ts, em) = Inr (ts', em') \<Longrightarrow>
   (\<And>e. em = Some e \<Longrightarrow> CHR ''@'' \<in> set e) \<Longrightarrow>
   em' = Some e' \<Longrightarrow> CHR ''@'' \<in> set e'"
proof (induction xs arbitrary: ts em)
  case Nil
  then show ?case by simp
next
  case (Cons x xs)
  from Cons.prems(1) obtain ts1 em1 where
    rest: "affil_loop xs (ts1, em1) = Inr (ts', em')"
    and em1: "em1 = em \<or> (\<exists>ws. em1 = email_of_words ws em)"
    by (auto split: if_splits sum.splits)
  have "CHR ''@'' \<in> set e" if "em1 = Some e" for e
    using em1 that Cons.prems(2) email_of_words_at by blast
  from Cons.IH [OF rest this Cons.prems(3)] show ?case by simp
qed

lemma author_fields_email_at:
  assumes "author_fields a = Inr (n, af, Some e)"
  shows "CHR ''@'' \<in> set e"
  using assms
  by (auto simp: author_fields_def Let_def split: sum.splits if_splits prod.splits
      dest: affil_loop_email_at)

lemma author_email_of_at: "author_email_of a = Some e \<Longrightarrow> CHR ''@'' \<in> set e"
  by (auto simp: author_email_of_def split: if_splits sum.splits prod.splits
      dest: author_fields_email_at)

lemma author_emails_at: "e \<in> set (author_emails authors) \<Longrightarrow> CHR ''@'' \<in> set e"
  by (auto simp: author_emails_def List.map_filter_def dest: author_email_of_at)

lemma author_loop_corr:
  "author_loop authors st = Inr st' \<Longrightarrow>
   corresponding_author_email st'
     = (if truthy (corresponding_author_email st) then corresponding_author_email st
        else (case author_emails authors of
                [] \<Rightarrow> corresponding_author_email st
              | e # es \<Rightarrow> Some e))"
proof (induction authors arbitrary: st)
  case Nil
  then show ?case by (simp add: author_emails_def)
next
  case (Cons a authors)
  show ?case
  proof (cases "is_dict a")
    case False
    with Cons.prems have "author_loop authors st = Inr st'" by simp
    from Cons.IH [OF this] False show ?thesis
      by (simp add: author_emails_def author_email_of_def)
  next
    case True
    with Cons.prems obtain f where f: "author_fields a = Inr f"
      and rest: "author_loop authors (author_update f st) = Inr st'"
      by (auto split: sum.splits)
    obtain n af em where ff: "f = (n, af, em)" by (cases f)
    have em: "author_email_of a = em"
      using True f ff by (simp add: author_email_of_def)
    have tr: "truthy em \<longleftrightarrow> em \<noteq> None"
      using author_fields_email_at [of a n af] f ff
      by (cases em) (auto simp: truthy_def)
    from Cons.IH [OF rest] show ?thesis
      unfolding ff author_update_corr
      using em tr
      by (cases em) (auto simp: author_emails_def truthy_def)
  qed
qed

lemma foldl_insert_new_set: "set (foldl insert_new acc gs) = set acc \<union> set gs"
  by (induction gs arbitrary: acc) (auto simp: insert_new_def)

lemma foldl_insert_new_first_seen: "foldl insert_new [] gs = first_seen gs"
proof (induction gs rule: rev_induct)
  case Nil
  then show ?case by (simp add: first_seen_def)
next
  case (snoc g gs)
  have "set (first_seen gs) = set gs" by (simp add: first_seen_def)
  with snoc show ?case
    by (auto simp: first_seen_def insert_new_def)
qed

lemma author_loop_company:
  "author_loop authors st = Inr st' \<Longrightarrow>
   company_affiliations_list st'
     = foldl insert_new (company_affiliations_list st) (company_guesses authors)"
proof (induction authors arbitrary: st)
  case Nil
  then show ?case by (simp add: company_guesses_def)
next
  case (Cons a authors)
  show ?case
  proof (cases "is_dict a")
    case False
    with Cons.prems have "author_loop authors st = Inr st'" by simp
    from Cons.IH [OF this] False show ?thesis
      by (simp add: company_guesses_def author_company_def)
  next
    case True
    with Cons.prems obtain f where f: "author_fields a = Inr f"
      and rest: "author_loop authors (author_update f st) = Inr st'"
      by (auto split: sum.splits)
    obtain n af em where ff: "f = (n, af, em)" by (cases f)
    obtain is_na cn where na: "is_non_academic af em = (is_na, cn)"
      by (cases "is_non_academic af em")
    from Cons.IH [OF rest] show ?thesis
      unfolding ff author_update_company
      using True f ff na
      by (cases cn)
         (auto simp: company_guesses_def author_company_def
            add_company_def truthy_def insert_new_def)
  qed
qed

lemma in_map_filter_emitted:
  "row \<in> set (List.map_filter emitted ps) \<Longrightarrow> \<exists>p \<in> set ps. process_paper p = Inr (Some row)"
  by (auto simp: List.map_filter_def emitted_def split: sum.splits)

lemma process_paper_row:
  assumes "process_paper p = Inr (Some row)"
  obtains pmid title date st where
    "paper_header p = Inr (pmid, title, date, paper_authors p)"
    "author_loop (paper_authors p) init_acc = Inr st"
    "row = make_summary pmid title date st"
  using assms
  by (auto simp: process_paper_def paper_authors_def split: sum.splits prod.splits if_splits)

lemma process_paper_email:
  assumes "process_paper p = Inr (Some row)"
  shows "Corresponding_Author_Email row
           = (case author_emails (paper_authors p) of [] \<Rightarrow> ''N/A'' | e # es \<Rightarrow> e)"
proof -
  from assms obtain pmid title date st where
    st: "author_loop (paper_authors p) init_acc = Inr st"
    and row: "row = make_summary pmid title date st"
    by (rule process_paper_row)
  have corr: "corresponding_author_email st
      = (case author_emails (paper_authors p) of [] \<Rightarrow> None | e # es \<Rightarrow> Some e)"
    using author_loop_corr [OF st] by (simp add: init_acc_def truthy_def split: list.splits)
  show ?thesis
  proof (cases "author_emails (paper_authors p)")
    case Nil
    with corr row show ?thesis by (simp add: make_summary_def)
  next
    case (Cons e es)
    then have "CHR ''@'' \<in> set e" using author_emails_at [of e "paper_authors p"] by simp
    then have "e \<noteq> []" by auto
    with corr row Cons show ?thesis by (simp add: make_summary_def)
  qed
qed

section \<open>Which papers are emitted\<close>

lemma emitted_all2:
  "list_all2 (\<lambda>paper row. process_paper paper = Inr (Some row))
     (filter (\<lambda>paper. \<not> raises paper \<and> has_non_academic paper) ps)
     (List.map_filter emitted ps)"
proof (induction ps)
  case Nil
  then show ?case by simp
next
  case (Cons p ps)
  show ?case
  proof (cases "process_paper p")
    case (Inl e)
    with Cons show ?thesis
      by (simp add: emitted_def raises_def)
  next
    case (Inr r)
    with process_paper_emits [OF Inr] Cons show ?thesis
      by (cases r) (auto simp: emitted_def raises_def)
  qed
qed

text \<open>
  Claim C1, as amended. Whenever \<open>process_papers\<close> returns, its rows are, in input
  order, one row for each paper whose processing raises no exception and that has at
  least one author classified non-academic by \<open>is_non_academic\<close>, and no row for any
  other paper: a paper is emitted if and only if its processing does not raise and one
  of its authors is non-academic.
\<close>

theorem summary_iff_non_academic_author:
  assumes "process_papers ps = Inr (rows, ws)"
  shows "list_all2 (\<lambda>paper row. process_paper paper = Inr (Some row))
           (filter (\<lambda>paper. \<not> raises paper \<and> has_non_academic paper) ps) rows \<and>
         ((\<exists>row. process_paper p = Inr (Some row))
            \<longleftrightarrow> \<not> raises p \<and> has_non_academic p)"
  using process_papers_rows [OF assms] emitted_all2 [of ps] emitted_iff [of p] by simp

theorem summary_iff_non_academic_author_witness:
  "process_papers [stanford_only, stanford_novartis] = Inr ([stanford_novartis_row], []) \<and>
   list_all2 (\<lambda>paper row. process_paper paper = Inr (Some row))
     (filter (\<lambda>paper. \<not> raises paper \<and> has_non_academic paper)
        [stanford_only, stanford_novartis])
     [stanford_novartis_row] \<and>
   ((\<exists>row. process_paper stanford_only = Inr (Some row))
      \<longleftrightarrow> \<not> raises stanford_only \<and> has_non_academic stanford_only)"
proof -
  have h: "process_papers [stanford_only, stanford_novartis] = Inr ([stanford_novartis_row], [])"
    by code_simp
  from h summary_iff_non_academic_author [OF h, of stanford_only] show ?thesis
    by (rule conjI)
qed

text \<open>
  The claim without the amendment fails: the paper below has a non-academic author
  (Roe, at Pfizer Inc), its second author has an affiliation that is not a string, the
  \<open>TypeError\<close> is caught and logged, and the paper is not emitted.
\<close>

theorem summary_iff_non_academic_author_counterexample:
  "has_non_academic
     (PDict [(''MedlineCitation'',
              PDict [(''PMID'', PStr ''7''),
                     (''Article'',
                      PDict [(''AuthorList'',
                              PList [PDict [(''LastName'', PStr ''Roe''),
                                            (''AffiliationInfo'',
                                             PList [PDict [(''Affiliation'', PStr ''Pfizer Inc, New York'')]])],
                                     PDict [(''LastName'', PStr ''Poe''),
                                            (''AffiliationInfo'',
                                             PList [PDict [(''Affiliation'', PNone)]])]])])])]) \<and>
   process_papers
     [PDict [(''MedlineCitation'',
              PDict [(''PMID'', PStr ''7''),
                     (''Article'',
                      PDict [(''AuthorList'',
                              PList [PDict [(''LastName'', PStr ''Roe''),
                                            (''AffiliationInfo'',
                                             PList [PDict [(''Affiliation'', PStr ''Pfizer Inc, New York'')]])],
                                     PDict [(''LastName'', PStr ''Poe''),
                                            (''AffiliationInfo'',
                                             PList [PDict [(''Affiliation'', PNone)]])]])])])]]
   = Inr ([], [Warning (PStr ''7'') TypeError])"
  by code_simp

section \<open>The email of an author\<close>

text \<open>
  Claim C3. The claim says that an email found in a later affiliation field never
  replaces one found in an earlier field of the same author. In the code the \<open>break\<close>
  leaves only the loop over the words of one affiliation text, and the next affiliation
  text with an \<open>@\<close> overwrites \<open>author_email\<close>: for the author below the email kept
  is the one of the second affiliation.
\<close>

theorem later_affiliation_email_replaces_earlier:
  "author_fields
     (PDict [(''ForeName'', PStr ''Ada''), (''LastName'', PStr ''Roe''),
             (''AffiliationInfo'',
              PList [PDict [(''Affiliation'', PStr ''Pfizer Inc, NY. a.roe@pfizer.com'')],
                     PDict [(''Affiliation'', PStr ''Yale University (roe@yale.edu).'')]])])
   = Inr (''Ada Roe'',
          ''Pfizer Inc, NY. a.roe@pfizer.com; Yale University (roe@yale.edu).'',
          Some ''roe@yale.edu'')"
  by code_simp

section \<open>The publication date\<close>

text \<open>
  Claim C4. The claim says that a missing date component is left out with its
  separator. The code joins year, month and day with \<open>-\<close> and strips \<open>-\<close> at the two
  ends only: a record with a year and a day and no month gets a date with a double
  separator.
\<close>

theorem publication_date_double_separator:
  "process_papers
     [PDict [(''MedlineCitation'',
              PDict [(''PMID'', PStr ''9''),
                     (''Article'',
                      PDict [(''ArticleTitle'', PStr ''A trial''),
                             (''Journal'',
                              PDict [(''JournalIssue'',
                                      PDict [(''PubDate'',
                                              PDict [(''Year'', PStr ''2020''),
                                                     (''Day'', PStr ''15'')])])]),
                             (''AuthorList'',
                              PList [PDict [(''ForeName'', PStr ''Ada''),
                                            (''LastName'', PStr ''Roe''),
                                            (''AffiliationInfo'',
                                             PList [PDict [(''Affiliation'', PStr ''Pfizer Inc, NY'')]])]])])])]]
   = Inr ([\<lparr>PubMedID = PStr ''9'', Title = PStr ''A trial'', Publication_Date = ''2020--15'',
            Non_academic_Authors = ''Ada Roe'', Company_Affiliations = ''Pfizer Inc'',
            Corresponding_Author_Email = ''N/A''\<rparr>], [])"
  by code_simp

section \<open>The corresponding author email\<close>

text \<open>
  At the level of authors the field is as intended: it is the email of the first author
  in author-list order for whom an email was extracted, whatever the classification of
  the authors, and it is \<open>N/A\<close> if and only if no author has one.
\<close>

lemma corresponding_email_of_first_author_with_email:
  assumes "process_papers ps = Inr (rows, ws)" and "row \<in> set rows"
  shows "\<exists>paper \<in> set ps.
           process_paper paper = Inr (Some row) \<and>
           Corresponding_Author_Email row
             = (case author_emails (paper_authors paper) of [] \<Rightarrow> ''N/A'' | e # es \<Rightarrow> e) \<and>
           (Corresponding_Author_Email row = ''N/A''
              \<longleftrightarrow> author_emails (paper_authors paper) = [])"
proof -
  from assms obtain p where p: "p \<in> set ps" and row: "process_paper p = Inr (Some row)"
    using process_papers_rows in_map_filter_emitted by blast
  note field = process_paper_email [OF row]
  have "(Corresponding_Author_Email row = ''N/A'') \<longleftrightarrow> author_emails (paper_authors p) = []"
  proof (cases "author_emails (paper_authors p)")
    case Nil
    with field show ?thesis by simp
  next
    case (Cons e es)
    then have "CHR ''@'' \<in> set e" using author_emails_at [of e "paper_authors p"] by simp
    then have "e \<noteq> ''N/A''" by auto
    with field Cons show ?thesis by simp
  qed
  with p row field show ?thesis by blast
qed

text \<open>
  Claim C5. The claim says that the field is the first email seen and that no later
  email overrides it. The email extracted for one author is the one of the author's
  last affiliation text with an \<open>@\<close> (the overwrite of claim C3), so for the paper
  below the field is the later email \<open>roe@yale.edu\<close>, which replaced the first email
  seen, \<open>a.roe@pfizer.com\<close>.
\<close>

theorem corresponding_email_takes_later_affiliation:
  "process_papers
     [PDict [(''MedlineCitation'',
              PDict [(''PMID'', PStr ''11''),
                     (''Article'',
                      PDict [(''ArticleTitle'', PStr ''A trial''),
                             (''AuthorList'',
                              PList [PDict [(''ForeName'', PStr ''Ada''),
                                            (''LastName'', PStr ''Roe''),
                                            (''AffiliationInfo'',
                                             PList [PDict [(''Affiliation'', PStr ''Pfizer Inc, NY. a.roe@pfizer.com'')],
                                                    PDict [(''Affiliation'', PStr ''Yale University (roe@yale.edu).'')]])]])])])]]
   = Inr ([\<lparr>PubMedID = PStr ''11'', Title = PStr ''A trial'', Publication_Date = [],
            Non_academic_Authors = ''Ada Roe'', Company_Affiliations = ''Pfizer Inc'',
            Corresponding_Author_Email = ''roe@yale.edu''\<rparr>], [])"
  by code_simp

section \<open>Batches of identifiers\<close>

lemma chunk_index: "100 * k < n \<longleftrightarrow> k < n_chunks n"
  by (auto simp: n_chunks_def)

lemma fetch_batch_calls:
  "fetch_calls (fetch_batch efetch pmids (100 * k) st) = fetch_calls st @ [chunk_at pmids k]"
  by (simp add: fetch_batch_def chunk_at_def batch_size_def Let_def split: sum.splits)

lemma fetch_batch_data:
  "papers_data (fetch_batch efetch pmids (100 * k) st)
     = papers_data st @ articles_of (efetch k (chunk_at pmids k))"
  by (simp add: fetch_batch_def chunk_at_def batch_size_def articles_of_def Let_def
      split: sum.splits)

lemma fetch_loop_step:
  "k < n_chunks (length pmids) \<Longrightarrow>
   fetch_loop efetch pmids (100 * k) st
     = fetch_loop efetch pmids (100 * Suc k) (fetch_batch efetch pmids (100 * k) st)"
  by (subst fetch_loop.simps) (simp add: chunk_index batch_size_def add.commute)

lemma fetch_loop_stop:
  "\<not> k < n_chunks (length pmids) \<Longrightarrow> fetch_loop efetch pmids (100 * k) st = st"
  by (subst fetch_loop.simps) (simp add: chunk_index)

lemma fetch_loop_calls:
  "fetch_calls (fetch_loop efetch pmids (100 * k) st)
     = fetch_calls st @ map (chunk_at pmids) [k..<n_chunks (length pmids)]"
proof (induction "n_chunks (length pmids) - k" arbitrary: k st)
  case 0
  then show ?case by (simp add: fetch_loop_stop)
next
  case (Suc m)
  then have k: "k < n_chunks (length pmids)" and m: "m = n_chunks (length pmids) - Suc k"
    by simp_all
  show ?case
    by (simp only: fetch_loop_step [OF k] Suc.hyps(1) [OF m] fetch_batch_calls
          upt_conv_Cons [OF k] list.map append_assoc append_Cons append_Nil)
qed

lemma fetch_loop_data:
  "papers_data (fetch_loop efetch pmids (100 * k) st)
     = papers_data st
       @ concat (map (\<lambda>j. articles_of (efetch j (chunk_at pmids j)))
                   [k..<n_chunks (length pmids)])"
proof (induction "n_chunks (length pmids) - k" arbitrary: k st)
  case 0
  then show ?case by (simp add: fetch_loop_stop)
next
  case (Suc m)
  then have k: "k < n_chunks (length pmids)" and m: "m = n_chunks (length pmids) - Suc k"
    by simp_all
  show ?case
    by (simp only: fetch_loop_step [OF k] Suc.hyps(1) [OF m] fetch_batch_data
          upt_conv_Cons [OF k] list.map concat.simps append_assoc)
qed

lemma chunks_concat:
  "concat (map (chunk_at pmids) [k..<n_chunks (length pmids)]) = drop (100 * k) pmids"
proof (induction "n_chunks (length pmids) - k" arbitrary: k)
  case 0
  then have "\<not> 100 * k < length pmids" by (simp add: chunk_index)
  with 0 show ?case by simp
next
  case (Suc m)
  then have k: "k < n_chunks (length pmids)" and m: "m = n_chunks (length pmids) - Suc k"
    by simp_all
  have "take 100 (drop (100 * k) pmids) @ drop (100 * Suc k) pmids = drop (100 * k) pmids"
    using append_take_drop_id [of 100 "drop (100 * k) pmids"] by (simp add: add.commute)
  with Suc.hyps(1) [OF m] show ?case
    by (simp add: upt_conv_Cons [OF k] chunk_at_def)
qed

lemma chunks_sizes:
  "list_all (\<lambda>c. c \<noteq> [] \<and> length c \<le> 100)
     (map (chunk_at pmids) [0..<n_chunks (length pmids)])"
  by (auto simp: list_all_iff chunk_at_def chunk_index [symmetric])

text \<open>
  Claim C6. For every list of \<open>N\<close> identifiers, \<open>fetch_paper_details\<close> calls the
  source once per chunk, for the \<open>ceil(N / 100)\<close> chunks in order; the chunks are not
  empty, hold at most 100 identifiers and together are the list; and the result is the
  concatenation, in chunk order, of what each chunk contributes, which is nothing for a
  chunk whose call or answer fails and the records of its answer otherwise.
\<close>

theorem fetch_paper_details_chunks:
  "fetch_calls (fetch_run efetch pmids) = map (chunk_at pmids) [0..<n_chunks (length pmids)] \<and>
   list_all (\<lambda>c. c \<noteq> [] \<and> length c \<le> 100)
     (map (chunk_at pmids) [0..<n_chunks (length pmids)]) \<and>
   concat (map (chunk_at pmids) [0..<n_chunks (length pmids)]) = pmids \<and>
   fetch_paper_details efetch pmids
     = concat (map (\<lambda>k. articles_of (efetch k (chunk_at pmids k)))
                 [0..<n_chunks (length pmids)])"
proof -
  have zero: "n_chunks (length pmids) = 0" if "pmids = []"
    using that by (simp add: n_chunks_def)
  have calls: "fetch_calls (fetch_run efetch pmids)
      = map (chunk_at pmids) [0..<n_chunks (length pmids)]"
    using fetch_loop_calls [of efetch pmids 0] zero by (simp add: fetch_run_def Let_def)
  have data: "fetch_paper_details efetch pmids
      = concat (map (\<lambda>k. articles_of (efetch k (chunk_at pmids k)))
                  [0..<n_chunks (length pmids)])"
    using fetch_loop_data [of efetch pmids 0] zero
    by (simp add: fetch_paper_details_def fetch_run_def Let_def)
  have cat: "concat (map (chunk_at pmids) [0..<n_chunks (length pmids)]) = pmids"
    using chunks_concat [of pmids 0] by simp
  from calls chunks_sizes cat data show ?thesis by blast
qed

theorem fetch_paper_details_chunks_witness:
  "length (fetch_calls (fetch_run failing_second (replicate 250 ''7''))) = 3 \<and>
   fetch_paper_details failing_second (replicate 250 ''7'') = replicate 150 (PStr ''7'')"
proof -
  have n: "n_chunks 250 = 3" by (simp add: n_chunks_def)
  have up: "[0..<3] = [0, 1, 2]" by (simp add: upt_rec)
  have c0: "chunk_at (replicate 250 ''7'') 0 = replicate 100 ''7''"
    and c2: "chunk_at (replicate 250 ''7'') 2 = replicate 50 ''7''"
    by (simp_all add: chunk_at_def)
  have "replicate 100 (PStr ''7'') @ replicate 50 (PStr ''7'') = replicate 150 (PStr ''7'')"
    by (simp add: replicate_add [symmetric])
  then show ?thesis
    using fetch_paper_details_chunks [of failing_second "replicate 250 ''7''"]
    by (simp add: n up c0 c2 articles_of_def failing_second_def)
qed

section \<open>An exception in the handler\<close>

text \<open>
  The handler is the only place where an exception can leave the loop: when it can
  read an identifier for every paper, \<open>process_papers\<close> returns.
\<close>

lemma papers_loop_returns:
  "list_all (\<lambda>p. \<exists>pmid. pmid_for_error p = Inr pmid) ps \<Longrightarrow>
   \<exists>rows ws. papers_loop ps st = Inr (rows, ws)"
proof (induction ps arbitrary: st)
  case Nil
  then show ?case by (cases st) simp
next
  case (Cons p ps)
  then obtain pmid where "pmid_for_error p = Inr pmid"
    and "list_all (\<lambda>p. \<exists>pmid. pmid_for_error p = Inr pmid) ps"
    by auto
  with Cons.IH show ?case
    by (cases st) (auto split: sum.splits option.splits)
qed

text \<open>
  Claim C7. The claim says that no exception of one paper leaves \<open>process_papers\<close>.
  The handler reads the identifier with the same two \<open>get\<close> calls that the \<open>try\<close> body
  starts with: when \<open>MedlineCitation\<close> is not a mapping the body raises, the handler
  raises again, and the exception leaves \<open>process_papers\<close> before the second paper is
  processed.
\<close>

theorem handler_exception_escapes:
  "process_papers
     [PDict [(''MedlineCitation'', PStr ''36000001'')],
      PDict [(''MedlineCitation'',
              PDict [(''PMID'', PStr ''9''),
                     (''Article'',
                      PDict [(''AuthorList'',
                              PList [PDict [(''LastName'', PStr ''Roe''),
                                            (''AffiliationInfo'',
                                             PList [PDict [(''Affiliation'', PStr ''Pfizer Inc, NY'')]])]])])])]]
   = Inl AttributeError"
  by code_simp

section \<open>The company affiliations\<close>

text \<open>
  Claim C8, as amended. Every row that \<open>process_papers\<close> emits comes from a paper of
  the input, and its Company Affiliation(s) field is the \<open>"; "\<close>-join of the list
  \<open>company_affiliations_list\<close> that the author loop of that paper ends with; that list
  has no duplicates and holds the non-empty organization guesses of the paper's
  non-academic authors, each at its first occurrence in author-list order.
\<close>

theorem company_affiliations_first_seen:
  assumes "process_papers ps = Inr (rows, ws)" and "row \<in> set rows"
  shows "\<exists>paper \<in> set ps. \<exists>st.
           process_paper paper = Inr (Some row) \<and>
           author_loop (paper_authors paper) init_acc = Inr st \<and>
           Company_Affiliations row = py_join ''; '' (company_affiliations_list st) \<and>
           distinct (company_affiliations_list st) \<and>
           company_affiliations_list st = first_seen (company_guesses (paper_authors paper))"
proof -
  from assms obtain p where p: "p \<in> set ps" and row: "process_paper p = Inr (Some row)"
    using process_papers_rows in_map_filter_emitted by blast
  from row obtain pmid title date st where
    st: "author_loop (paper_authors p) init_acc = Inr st"
    and mk: "row = make_summary pmid title date st"
    by (rule process_paper_row)
  have list: "company_affiliations_list st = first_seen (company_guesses (paper_authors p))"
    using author_loop_company [OF st] by (simp add: init_acc_def foldl_insert_new_first_seen)
  then have "distinct (company_affiliations_list st)"
    by (simp add: first_seen_def)
  moreover have "Company_Affiliations row = py_join ''; '' (company_affiliations_list st)"
    using mk by (simp add: make_summary_def)
  ultimately show ?thesis using p row st list by blast
qed

theorem company_affiliations_first_seen_witness:
  "process_papers [two_companies] = Inr ([two_companies_row], []) \<and>
   (\<exists>paper \<in> set [two_companies]. \<exists>st.
      process_paper paper = Inr (Some two_companies_row) \<and>
      author_loop (paper_authors paper) init_acc = Inr st \<and>
      Company_Affiliations two_companies_row = py_join ''; '' (company_affiliations_list st) \<and>
      distinct (company_affiliations_list st) \<and>
      company_affiliations_list st = first_seen (company_guesses (paper_authors paper)))"
proof -
  have h: "process_papers [two_companies] = Inr ([two_companies_row], [])"
    by code_simp
  have m: "two_companies_row \<in> set [two_companies_row]" by simp
  from h company_affiliations_first_seen [OF h m] show ?thesis by (rule conjI)
qed

text \<open>
  The claim without the amendment fails on the field itself. Abt has two affiliations
  and no comma, so the guess is the joined text \<open>Novartis AG; University of Basel\<close>;
  Berg's guess \<open>Novartis AG\<close> is a new element of the list, and the field read at its
  separator has the entry \<open>Novartis AG\<close> twice. Cole is classified non-academic with
  the empty guess, which the code does not append.
\<close>

theorem company_affiliations_first_seen_counterexample:
  "process_papers
     [PDict [(''MedlineCitation'',
              PDict [(''PMID'', PStr ''12''),
                     (''Article'',
                      PDict [(''ArticleTitle'', PStr ''A trial''),
                             (''AuthorList'',
                              PList [PDict [(''LastName'', PStr ''Abt''),
                                            (''AffiliationInfo'',
                                             PList [PDict [(''Affiliation'', PStr ''Novartis AG'')],
                                                    PDict [(''Affiliation'', PStr ''University of Basel'')]])],
                                     PDict [(''LastName'', PStr ''Berg''),
                                            (''AffiliationInfo'',
                                             PList [PDict [(''Affiliation'', PStr ''Novartis AG'')]])],
                                     PDict [(''LastName'', PStr ''Cole''),
                                            (''AffiliationInfo'',
                                             PList [PDict [(''Affiliation'', PStr '', Inc'')]])]])])])]]
   = Inr ([\<lparr>PubMedID = PStr ''12'', Title = PStr ''A trial'', Publication_Date = [],
            Non_academic_Authors = ''Abt; Berg; Cole'',
            Company_Affiliations = ''Novartis AG; University of Basel; Novartis AG'',
            Corresponding_Author_Email = ''N/A''\<rparr>], []) \<and>
   field_entries ''Novartis AG; University of Basel; Novartis AG''
     = [''Novartis AG'', ''University of Basel'', ''Novartis AG''] \<and>
   \<not> distinct (field_entries ''Novartis AG; University of Basel; Novartis AG'') \<and>
   is_non_academic '', Inc'' None = (True, Some [])"
  by code_simp

section \<open>Singleton or list\<close>








section \<open>Order of the rows\<close>

lemma emitted_subseq:
  "subseq (map (\<lambda>row. Inr (Some row)) (List.map_filter emitted ps)) (map process_paper ps)"
proof (induction ps)
  case Nil
  then show ?case by simp
next
  case (Cons p ps)
  show ?case
  proof (cases "emitted p")
    case None
    with Cons show ?thesis by (auto intro: list_emb_Cons)
  next
    case (Some row)
    then have "process_paper p = Inr (Some row)"
      by (auto simp: emitted_def split: sum.splits)
    with Cons Some show ?thesis by simp
  qed
qed

text \<open>
  Claim C10. Whenever \<open>process_papers\<close> returns, its rows are the rows of the input
  records that emit one, in input order: each record contributes at most one row, and
  the rows are a subsequence of the per-record results.
\<close>

theorem process_papers_order_preserving:
  assumes "process_papers ps = Inr (rows, ws)"
  shows "rows = List.map_filter emitted ps \<and>
         subseq (map (\<lambda>row. Inr (Some row)) rows) (map process_paper ps) \<and>
         length rows \<le> length ps"
proof -
  have rows: "rows = List.map_filter emitted ps"
    using assms by (rule process_papers_rows)
  have "length (List.map_filter emitted ps) \<le> length ps"
    by (simp add: List.map_filter_def o_def)
  with rows emitted_subseq [of ps] show ?thesis by simp
qed

theorem process_papers_order_preserving_witness:
  "process_papers [two_companies, stanford_only, stanford_novartis]
     = Inr ([two_companies_row, stanford_novartis_row], []) \<and>
   [two_companies_row, stanford_novartis_row]
     = List.map_filter emitted [two_companies, stanford_only, stanford_novartis] \<and>
   subseq (map (\<lambda>row. Inr (Some row)) [two_companies_row, stanford_novartis_row])
     (map process_paper [two_companies, stanford_only, stanford_novartis]) \<and>
   length [two_companies_row, stanford_novartis_row]
     \<le> length [two_companies, stanford_only, stanford_novartis]"
proof -
  have h: "process_papers [two_companies, stanford_only, stanford_novartis]
             = Inr ([two_companies_row, stanford_novartis_row], [])"
    by code_simp
  from h process_papers_order_preserving [OF h] show ?thesis by (rule conjI)
qed

end
